theory Spec2Isabelle
  imports Complex_Main "HOL-Library.Char_ord" "HOL-Library.List_Lexorder"
begin

section \<open>Values, records and configuration\<close>

text \<open>
  The scraper reads and writes JSON files. A decoded JSON document is a value of
  \<open>json\<close>; a Python \<open>dict\<close> is kept as its items in insertion order (keys distinct),
  and \<open>d.get(k)\<close> is \<open>map_of\<close>. A float stands for its (finite) value.
\<close>

datatype json =
    JNull
  | JBool bool
  | JInt int
  | JFloat real
  | JStr string
  | JList "json list"
  | JDict "(string \<times> json) list"

text \<open>Python's truth value of a decoded JSON value (\<open>bool(v)\<close>).\<close>

fun truthy :: "json \<Rightarrow> bool" where
  "truthy JNull = False"
| "truthy (JBool b) = b"
| "truthy (JInt i) = (i \<noteq> 0)"
| "truthy (JFloat x) = (x \<noteq> 0)"
| "truthy (JStr s) = (s \<noteq> [])"
| "truthy (JList xs) = (xs \<noteq> [])"
| "truthy (JDict kv) = (kv \<noteq> [])"

text \<open>\<open>a or b\<close>, \<open>d.get(k)\<close> and \<open>d.get(k, v)\<close>.\<close>

definition py_or :: "json \<Rightarrow> json \<Rightarrow> json" where
  "py_or a b = (if truthy a then a else b)"

definition dict_get :: "(string \<times> json) list \<Rightarrow> string \<Rightarrow> json" where
  "dict_get d k = (case map_of d k of None \<Rightarrow> JNull | Some v \<Rightarrow> v)"

definition dict_get_default :: "(string \<times> json) list \<Rightarrow> string \<Rightarrow> json \<Rightarrow> json" where
  "dict_get_default d k v0 = (case map_of d k of None \<Rightarrow> v0 | Some v \<Rightarrow> v)"

text \<open>
  The exceptions the modelled code can meet (\<open>OSError\<close>: a write to the disk that
  raises). \<open>IllTyped\<close> is not a Python exception:
  it marks a value that Python would carry on with although it lies outside the
  declared type (a non-string element in \<open>set[str]\<close>), which this typed model
  does not follow further.
\<close>

datatype error = TypeError | AttributeError | RuntimeError string | IllTyped | OSError

subsection \<open>models.py: Recipe\<close>

text \<open>
  \<open>Recipe.from_dict\<close> stores whatever the file holds, so the fields are JSON values.
  The field \<open>id\<close> is named \<open>recipe_id\<close> here.
\<close>

record Recipe =
  recipe_id :: json
  title :: json
  source_url :: json
  language :: json
  rating_score :: json
  rating_count :: json
  tm_versions :: json
  ingredients :: json
  steps :: json
  tags :: json
  nutritions :: json

definition Recipe_to_dict :: "Recipe \<Rightarrow> json" where
  "Recipe_to_dict r = JDict
     [(''id'', recipe_id r),
      (''source_url'', source_url r),
      (''language'', language r),
      (''title'', title r),
      (''rating_count'', rating_count r),
      (''rating_score'', rating_score r),
      (''tm_versions'', tm_versions r),
      (''ingredients'', ingredients r),
      (''nutritions'', nutritions r),
      (''steps'', steps r),
      (''tags'', tags r)]"

text \<open>\<open>data.get\<close> raises \<open>AttributeError\<close> when the document is not an object.\<close>

definition Recipe_from_dict :: "json \<Rightarrow> error + Recipe" where
  "Recipe_from_dict data =
     (case data of
        JDict d \<Rightarrow> Inr
          \<lparr> recipe_id = dict_get_default d ''id'' (JStr ''''),
            title = dict_get_default d ''title'' (JStr ''''),
            source_url = dict_get d ''source_url'',
            language = dict_get d ''language'',
            rating_score = dict_get d ''rating_score'',
            rating_count = dict_get d ''rating_count'',
            tm_versions = py_or (py_or (dict_get d ''tm_versions'') (dict_get d ''tm-versions'')) (JList []),
            ingredients = py_or (dict_get d ''ingredients'') (JList []),
            steps = py_or (dict_get d ''steps'') (JList []),
            tags = py_or (dict_get d ''tags'') (JList []),
            nutritions = py_or (dict_get d ''nutritions'') (JDict []) \<rparr>
      | _ \<Rightarrow> Inl AttributeError)"

definition is_complete :: "Recipe \<Rightarrow> bool" where
  "is_complete r = truthy (py_or (ingredients r) (steps r))"

subsection \<open>models.py: ScrapeState\<close>

text \<open>
  \<open>datetime\<close> is the standard library's: its values are of a type \<open>'dt\<close>, and the two
  conversions the code calls are taken as parameters (\<open>fromisoformat\<close> gives \<open>None\<close>
  where Python raises \<open>ValueError\<close>). \<open>from_dict\<close> keeps a \<open>last_updated\<close> that is
  neither a string nor \<open>null\<close> as it is: \<open>Raw\<close>.
\<close>

record 'dt datetime_lib =
  isoformat :: "'dt \<Rightarrow> string"
  fromisoformat :: "string \<Rightarrow> 'dt option"

datatype 'dt timestamp = Stamp 'dt | Raw json

record 'dt ScrapeState =
  discovered :: "string set"
  pending :: "string set"
  completed :: "string set"
  failed :: "string set"
  last_updated :: "'dt timestamp"

text \<open>\<open>ScrapeState()\<close>: four empty sets and the current time.\<close>

definition new_state :: "'dt \<Rightarrow> 'dt ScrapeState" where
  "new_state now =
     \<lparr> discovered = {}, pending = {}, completed = {}, failed = {}, last_updated = Stamp now \<rparr>"

text \<open>
  \<open>sorted(s)\<close> of a set of strings: Python orders strings by code point, which is the
  lexicographic order of the character lists.
\<close>

definition sorted_strs :: "string set \<Rightarrow> json" where
  "sorted_strs s = JList (map JStr (sorted_list_of_set s))"

text \<open>\<open>last_updated.isoformat()\<close> exists only on a datetime.\<close>

definition ScrapeState_to_dict :: "'dt datetime_lib \<Rightarrow> 'dt ScrapeState \<Rightarrow> error + json" where
  "ScrapeState_to_dict L st =
     (case last_updated st of
        Raw v \<Rightarrow> Inl AttributeError
      | Stamp t \<Rightarrow> Inr (JDict
          [(''discovered'', sorted_strs (discovered st)),
           (''pending'', sorted_strs (pending st)),
           (''completed'', sorted_strs (completed st)),
           (''failed'', sorted_strs (failed st)),
           (''last_updated'', JStr (isoformat L t))]))"

text \<open>
  \<open>set(v or [])\<close>: a list gives the set of its elements, a string the set of its
  characters, an object the set of its keys; a number or \<open>true\<close> is not iterable and
  a list or object as an element is not hashable (\<open>TypeError\<close>).
\<close>

fun is_str :: "json \<Rightarrow> bool" where
  "is_str (JStr s) = True"
| "is_str _ = False"

fun unhashable :: "json \<Rightarrow> bool" where
  "unhashable (JList xs) = True"
| "unhashable (JDict kv) = True"
| "unhashable _ = False"

fun the_str :: "json \<Rightarrow> string" where
  "the_str (JStr s) = s"
| "the_str _ = []"

definition str_set :: "json \<Rightarrow> error + string set" where
  "str_set v =
     (case py_or v (JList []) of
        JList xs \<Rightarrow>
          if list_ex unhashable xs then Inl TypeError
          else if list_all is_str xs then Inr (set (map the_str xs))
          else Inl IllTyped
      | JStr s \<Rightarrow> Inr (set (map (\<lambda>c. [c]) s))
      | JDict kv \<Rightarrow> Inr (set (map fst kv))
      | _ \<Rightarrow> Inl TypeError)"

text \<open>
  The four sets are built in the order of the keyword arguments; the first
  \<open>TypeError\<close> leaves the call.
\<close>

definition four_sets ::
  "error + string set \<Rightarrow> error + string set \<Rightarrow> error + string set \<Rightarrow> error + string set \<Rightarrow>
   error + (string set \<times> string set \<times> string set \<times> string set)" where
  "four_sets a b c d =
     (if Inl TypeError \<in> set [a, b, c, d] then Inl TypeError
      else case (a, b, c, d) of
        (Inr x, Inr y, Inr z, Inr w) \<Rightarrow> Inr (x, y, z, w)
      | _ \<Rightarrow> Inl IllTyped)"

definition ScrapeState_from_dict ::
  "'dt datetime_lib \<Rightarrow> 'dt \<Rightarrow> json \<Rightarrow> error + 'dt ScrapeState" where
  "ScrapeState_from_dict L now data =
     (case data of
        JDict d \<Rightarrow>
          (let lu = (case dict_get d ''last_updated'' of
                       JStr s \<Rightarrow> (case fromisoformat L s of Some t \<Rightarrow> Stamp t | None \<Rightarrow> Stamp now)
                     | JNull \<Rightarrow> Stamp now
                     | v \<Rightarrow> Raw v)
           in case four_sets (str_set (dict_get d ''discovered'')) (str_set (dict_get d ''pending''))
                             (str_set (dict_get d ''completed'')) (str_set (dict_get d ''failed'')) of
                Inl e \<Rightarrow> Inl e
              | Inr (x, y, z, w) \<Rightarrow>
                  Inr \<lparr> discovered = x, pending = y, completed = z, failed = w, last_updated = lu \<rparr>)
      | _ \<Rightarrow> Inl AttributeError)"

subsection \<open>config.py\<close>

datatype RunMode = SKIP_EXISTING | UPDATE | REDOWNLOAD_ALL | CONTINUE

text \<open>
  The fields of \<open>Config\<close> that the modelled code reads. Paths are strings in pathlib's
  normal form; \<open>state_file\<close> is \<open>None\<close> when it is unset.
\<close>

record Config =
  output_dir :: string
  state_file :: "string option"
  mode :: RunMode
  recipe_ids :: "string list"
  max_retries :: int
  save_interval :: int

subsection \<open>state.py: StateManager\<close>

text \<open>
  The disk maps a path to the file it names: a file is what reading and decoding it
  gives, \<open>Unreadable\<close> when \<open>open\<close> or \<open>json.load\<close> raises.
\<close>

datatype stored = Unreadable | Json json

type_synonym disk = "string \<rightharpoonup> stored"

text \<open>\<open>output_dir / name\<close>: an absolute right operand replaces the left one.\<close>

definition path_join :: "string \<Rightarrow> string \<Rightarrow> string" where
  "path_join dir name = (if name \<noteq> [] \<and> hd name = CHR ''/'' then name else dir @ ''/'' @ name)"

text \<open>
  Two paths name the same file when they resolve to the same place. \<open>resolve\<close> is
  the lexical resolution of an absolute POSIX path into its components (no symbolic
  links): empty components and \<open>.\<close> are dropped, \<open>..\<close> leaves the directory entered
  last. pathlib keeps \<open>..\<close> in a path, and \<open>mkdir(parents=True)\<close> creates the
  directories it passes through, so the operating system resolves it this way.
\<close>

fun split_path :: "string \<Rightarrow> string list" where
  "split_path [] = [[]]"
| "split_path (c # cs) =
     (if c = CHR ''/'' then [] # split_path cs
      else (case split_path cs of [] \<Rightarrow> [[c]] | x # xs \<Rightarrow> (c # x) # xs))"

definition resolve_step :: "string \<Rightarrow> string list \<Rightarrow> string list" where
  "resolve_step c entered =
     (if c = [] \<or> c = ''.'' then entered
      else if c = ''..'' then tl entered
      else c # entered)"

definition resolve :: "string \<Rightarrow> string list" where
  "resolve p = rev (fold resolve_step (split_path p) [])"

text \<open>
  Writing and removing a file: every path that resolves to the same place shows the
  change.
\<close>

definition write_file :: "disk \<Rightarrow> string \<Rightarrow> stored \<Rightarrow> disk" where
  "write_file fs p v = (\<lambda>q. if resolve q = resolve p then Some v else fs q)"

definition remove_file :: "disk \<Rightarrow> string \<Rightarrow> disk" where
  "remove_file fs p = (\<lambda>q. if resolve q = resolve p then None else fs q)"

text \<open>
  How a write of a record file ends: it succeeds, it raises before the file is opened
  (\<open>mkdir\<close> or \<open>open\<close> fails: nothing changes), or it raises while the file is
  written (what is left cannot be parsed).
\<close>

datatype write_outcome = Written | Refused | Truncated

definition recipe_path :: "Config \<Rightarrow> string \<Rightarrow> string" where
  "recipe_path cfg rid = path_join (output_dir cfg) (rid @ ''.json'')"

definition recipe_exists :: "Config \<Rightarrow> disk \<Rightarrow> string \<Rightarrow> bool" where
  "recipe_exists cfg fs rid = (fs (recipe_path cfg rid) \<noteq> None)"

definition should_download :: "Config \<Rightarrow> 'dt ScrapeState \<Rightarrow> disk \<Rightarrow> string \<Rightarrow> bool" where
  "should_download cfg st fs rid =
     (if mode cfg = REDOWNLOAD_ALL then True
      else if mode cfg = UPDATE then True
      else if mode cfg = CONTINUE then rid \<in> pending st \<or> rid \<in> failed st
      else if rid \<in> completed st then False
      else \<not> recipe_exists cfg fs rid)"

definition mark_discovered :: "string \<Rightarrow> 'dt ScrapeState \<Rightarrow> 'dt ScrapeState" where
  "mark_discovered rid st = st\<lparr>discovered := insert rid (discovered st)\<rparr>"

definition mark_pending :: "string \<Rightarrow> 'dt ScrapeState \<Rightarrow> 'dt ScrapeState" where
  "mark_pending rid st = st\<lparr>pending := insert rid (pending st)\<rparr>"

definition mark_completed :: "string \<Rightarrow> 'dt ScrapeState \<Rightarrow> 'dt ScrapeState" where
  "mark_completed rid st =
     st\<lparr>completed := insert rid (completed st),
        pending := pending st - {rid},
        failed := failed st - {rid}\<rparr>"

definition mark_failed :: "string \<Rightarrow> 'dt ScrapeState \<Rightarrow> 'dt ScrapeState" where
  "mark_failed rid st =
     st\<lparr>failed := insert rid (failed st), pending := pending st - {rid}\<rparr>"

text \<open>
  \<open>_scan_existing_recipes\<close>. The directory listing is what \<open>glob("*.json")\<close> yields:
  file names (distinct, each ending in \<open>.json\<close>) with what reading them gives.
  \<open>stem\<close> is pathlib's: the name without its last suffix.
\<close>

definition stem :: "string \<Rightarrow> string" where
  "stem name =
     (let suffix_len = length (takeWhile (\<lambda>c. c \<noteq> CHR ''.'') (rev name)) in
      if CHR ''.'' \<in> set name \<and> 0 < suffix_len \<and> suffix_len + 1 < length name
      then take (length name - suffix_len - 1) name
      else name)"

definition hidden :: "string \<Rightarrow> bool" where
  "hidden name = (case name of [] \<Rightarrow> False | c # _ \<Rightarrow> c = CHR ''.'')"

definition scan_unparsable :: "string \<Rightarrow> 'dt ScrapeState \<Rightarrow> 'dt ScrapeState" where
  "scan_unparsable rid st =
     st\<lparr>discovered := insert rid (discovered st), completed := insert rid (completed st)\<rparr>"

definition scan_parsed :: "string \<Rightarrow> Recipe \<Rightarrow> 'dt ScrapeState \<Rightarrow> 'dt ScrapeState" where
  "scan_parsed rid recipe st =
     (let st1 = st\<lparr>discovered := insert rid (discovered st)\<rparr> in
      if is_complete recipe
      then st1\<lparr>completed := insert rid (completed st1), pending := pending st1 - {rid}\<rparr>
      else st1\<lparr>pending := insert rid (pending st1)\<rparr>)"

definition scan_file :: "string \<times> stored \<Rightarrow> 'dt ScrapeState \<Rightarrow> 'dt ScrapeState" where
  "scan_file entry st =
     (let name = fst entry in
      if hidden name then st
      else
        let rid = stem name in
        case snd entry of
          Unreadable \<Rightarrow> scan_unparsable rid st
        | Json data \<Rightarrow>
            (case Recipe_from_dict data of
               Inl e \<Rightarrow> scan_unparsable rid st
             | Inr recipe \<Rightarrow> scan_parsed rid recipe st))"

definition scan_existing_recipes ::
  "bool \<Rightarrow> (string \<times> stored) list \<Rightarrow> 'dt ScrapeState \<Rightarrow> 'dt ScrapeState" where
  "scan_existing_recipes is_dir listing st = (if \<not> is_dir then st else fold scan_file listing st)"

text \<open>
  \<open>_load_state\<close>, started from \<open>ScrapeState()\<close> made at time \<open>now0\<close>; any exception
  leaves that state in place.
\<close>

definition load_state ::
  "'dt datetime_lib \<Rightarrow> 'dt \<Rightarrow> 'dt \<Rightarrow> Config \<Rightarrow> disk \<Rightarrow> error + 'dt ScrapeState" where
  "load_state L now0 now1 cfg fs =
     (case state_file cfg of
        None \<Rightarrow> Inr (new_state now0)
      | Some p \<Rightarrow>
          (case fs p of
             None \<Rightarrow> Inr (new_state now0)
           | Some Unreadable \<Rightarrow> Inr (new_state now0)
           | Some (Json data) \<Rightarrow>
               (case ScrapeState_from_dict L now1 data of
                  Inr st \<Rightarrow> Inr st
                | Inl IllTyped \<Rightarrow> Inl IllTyped
                | Inl e \<Rightarrow> Inr (new_state now0))))"

text \<open>
  \<open>save_state\<close>: the file is opened for writing (and so emptied) before \<open>to_dict\<close>
  runs; an exception is logged and swallowed. Opening and writing the state file are
  taken to succeed.
\<close>

definition save_state :: "'dt datetime_lib \<Rightarrow> Config \<Rightarrow> 'dt ScrapeState \<Rightarrow> disk \<Rightarrow> disk" where
  "save_state L cfg st fs =
     (case state_file cfg of
        None \<Rightarrow> fs
      | Some p \<Rightarrow>
          (case ScrapeState_to_dict L st of
             Inl e \<Rightarrow> write_file fs p Unreadable
           | Inr d \<Rightarrow> write_file fs p (Json d)))"

definition clear_state :: "Config \<Rightarrow> disk \<Rightarrow> disk" where
  "clear_state cfg fs =
     (case state_file cfg of
        None \<Rightarrow> fs
      | Some p \<Rightarrow> if fs p \<noteq> None then remove_file fs p else fs)"

text \<open>
  \<open>save_recipe\<close> names the file after \<open>recipe.id\<close>, a string. \<open>outcome\<close> tells how the
  write at a path ends; the result is the exception raised, if any, and the disk
  afterwards.
\<close>

definition save_recipe ::
  "Config \<Rightarrow> (string \<Rightarrow> write_outcome) \<Rightarrow> Recipe \<Rightarrow> disk \<Rightarrow> error option \<times> disk" where
  "save_recipe cfg outcome recipe fs =
     (case recipe_id recipe of
        JStr s \<Rightarrow>
          (case outcome (recipe_path cfg s) of
             Written \<Rightarrow> (None, write_file fs (recipe_path cfg s) (Json (Recipe_to_dict recipe)))
           | Refused \<Rightarrow> (Some OSError, fs)
           | Truncated \<Rightarrow> (Some OSError, write_file fs (recipe_path cfg s) Unreadable))
      | _ \<Rightarrow> (Some IllTyped, fs))"

subsection \<open>scraper.py: identifier normalisation\<close>

text \<open>
  Identifiers are ASCII strings. \<open>str.isspace\<close> and \<open>str.isdigit\<close> on ASCII:
  the whitespace characters are U+0009 to U+000D and U+001C to U+0020.
\<close>

definition isspace :: "char \<Rightarrow> bool" where
  "isspace c = (let n = (of_char c :: nat) in (9 \<le> n \<and> n \<le> 13) \<or> (28 \<le> n \<and> n \<le> 32))"

definition isdigit :: "char \<Rightarrow> bool" where
  "isdigit c = (let n = (of_char c :: nat) in 48 \<le> n \<and> n \<le> 57)"

definition strip :: "string \<Rightarrow> string" where
  "strip s = rev (dropWhile isspace (rev (dropWhile isspace s)))"

definition lstrip_r :: "string \<Rightarrow> string" where
  "lstrip_r s = dropWhile (\<lambda>c. c = CHR ''r'') s"

definition startswith_r :: "string \<Rightarrow> bool" where
  "startswith_r s = (case s of [] \<Rightarrow> False | c # _ \<Rightarrow> c = CHR ''r'')"

definition normalize_id :: "string \<Rightarrow> string option" where
  "normalize_id recipe_id' =
     (let rid = strip recipe_id' in
      if rid = [] then None
      else
        let rid = (if isdigit (hd rid) then ''r'' @ rid else rid);
            rid = (if \<not> startswith_r rid then ''r'' @ lstrip_r rid else rid)
        in Some rid)"

subsection \<open>scraper.py: downloading\<close>

text \<open>
  \<open>ScrapeStats\<close> (its field \<open>discovered\<close> is \<open>discovered_count\<close> here) and the log
  records the modelled code writes, one constructor per message.
\<close>

record ScrapeStats =
  discovered_count :: int
  downloaded :: int
  skipped :: int
  updated :: int
  failures :: int
  prefixes_queried :: int


datatype log_record =
    Scraping_specific nat
  | Skipping string
  | Empty_content_retry string nat
  | Empty_content string
  | Failed string
  | Complete ScrapeStats
  | Progress ScrapeStats
  | Resuming nat


text \<open>
  What a run changes: the crawl state, the statistics, the disk, the number of pages
  requested so far (\<open>driver.get\<close>) and the log.
\<close>

record 'dt world =
  state :: "'dt ScrapeState"
  stats :: ScrapeStats
  files :: disk
  gets :: nat
  logs :: "log_record list"

text \<open>
  What a run meets outside the program: the browser session and the disk's answer
  to a write. \<open>page n rid\<close> is what the body of the \<open>try\<close> in \<open>_download_recipe\<close> gives
  up to \<open>parse_recipe\<close> for the \<open>n\<close>-th page request: \<open>None\<close> when it raises, otherwise
  the parsed recipe. \<open>writes n p\<close> is how a write of the record file at path \<open>p\<close>
  ends in the attempt of the \<open>n\<close>-th page request. The pauses (\<open>time.sleep\<close>) change
  nothing and are left out.
\<close>

record session =
  login_ok :: bool
  page :: "nat \<Rightarrow> string \<Rightarrow> Recipe option"
  writes :: "nat \<Rightarrow> string \<Rightarrow> write_outcome"

text \<open>\<open>parse_recipe\<close> builds the recipe with \<open>id=recipe_id\<close>.\<close>

definition parse_recipe :: "Recipe \<Rightarrow> string \<Rightarrow> Recipe" where
  "parse_recipe parsed rid = parsed\<lparr>recipe_id := JStr rid\<rparr>"

definition log :: "log_record \<Rightarrow> 'dt world \<Rightarrow> 'dt world" where
  "log r w = w\<lparr>logs := logs w @ [r]\<rparr>"

text \<open>
  The loop \<open>for attempt in range(max_retries + 1)\<close> of \<open>_download_recipe\<close>, over the
  attempts still to make; leaving the loop without a \<open>return\<close> gives \<open>False\<close>.
  \<open>save_recipe\<close> is called inside the \<open>try\<close>: a write that raises is handled like
  a page request that raises.
\<close>

fun download_attempts ::
  "Config \<Rightarrow> session \<Rightarrow> string \<Rightarrow> nat list \<Rightarrow> 'dt world \<Rightarrow> bool \<times> 'dt world" where
  "download_attempts cfg B rid [] w = (False, w)"
| "download_attempts cfg B rid (attempt # rest) w =
     (let w1 = w\<lparr>gets := gets w + 1\<rparr> in
      case page B (gets w) rid of
        None \<Rightarrow>
          if int attempt < max_retries cfg then download_attempts cfg B rid rest w1
          else (False, log (Failed rid) w1)
      | Some parsed \<Rightarrow>
          let recipe = parse_recipe parsed rid in
          if \<not> is_complete recipe \<and> int attempt < max_retries cfg
          then download_attempts cfg B rid rest (log (Empty_content_retry rid (attempt + 1)) w1)
          else
            let w2 = (if \<not> is_complete recipe then log (Empty_content rid) w1 else w1);
                saved = save_recipe cfg (writes B (gets w)) recipe (files w2);
                w3 = w2\<lparr>files := snd saved\<rparr>
            in case fst saved of
                 None \<Rightarrow> (True, w3)
               | Some e \<Rightarrow>
                   if int attempt < max_retries cfg then download_attempts cfg B rid rest w3
                   else (False, log (Failed rid) w3))"

definition download_recipe ::
  "Config \<Rightarrow> session \<Rightarrow> string \<Rightarrow> 'dt world \<Rightarrow> bool \<times> 'dt world" where
  "download_recipe cfg B rid w =
     download_attempts cfg B rid [0..<nat (max_retries cfg + 1)] w"

text \<open>
  One turn of the loop of \<open>_download_worker\<close> for a dequeued identifier; \<open>n\<close> is
  \<open>downloads_since_save\<close>.
\<close>

definition worker_turn ::
  "'dt datetime_lib \<Rightarrow> Config \<Rightarrow> session \<Rightarrow> string \<Rightarrow> int \<times> 'dt world \<Rightarrow> int \<times> 'dt world" where
  "worker_turn L cfg B rid nw =
     (let (success, w1) = download_recipe cfg B rid (snd nw);
          w2 = (if success
                then w1\<lparr>stats := (stats w1)\<lparr>downloaded := downloaded (stats w1) + 1\<rparr>,
                        state := mark_completed rid (state w1)\<rparr>
                else w1\<lparr>stats := (stats w1)\<lparr>failures := failures (stats w1) + 1\<rparr>,
                        state := mark_failed rid (state w1)\<rparr>);
          n = fst nw + 1
      in if n \<ge> save_interval cfg
         then (0, log (Progress (stats w2)) (w2\<lparr>files := save_state L cfg (state w2) (files w2)\<rparr>))
         else (n, w2))"

text \<open>
  \<open>_download_worker\<close> once discovery is done and nothing more is enqueued: the
  queue is drained in order, and the loop ends on the empty queue.
\<close>

definition download_worker ::
  "'dt datetime_lib \<Rightarrow> Config \<Rightarrow> session \<Rightarrow> string list \<Rightarrow> 'dt world \<Rightarrow> 'dt world" where
  "download_worker L cfg B queue w = snd (fold (worker_turn L cfg B) queue (0, w))"

subsection \<open>scraper.py: an explicit identifier list\<close>





subsection \<open>scraper.py: resuming\<close>

text \<open>
  The start of \<open>_run_discovery_and_download\<close>. Python iterates a set in an order of
  its own: \<open>iter\<close> lists a set's elements. The result is the seeded queue, or \<open>None\<close>
  when the discovery thread is started instead.
\<close>

definition seed_queue ::
  "Config \<Rightarrow> (string set \<Rightarrow> string list) \<Rightarrow> 'dt ScrapeState \<Rightarrow> string list option" where
  "seed_queue cfg iter st =
     (if mode cfg = CONTINUE \<and> pending st \<noteq> {} then Some (iter (pending st)) else None)"

text \<open>
  \<open>_run_discovery_and_download\<close> after \<open>algolia.initialize\<close>. With a seeded queue the
  worker drains it; the run of the discovery thread beside the worker is the
  parameter \<open>threaded\<close>.
\<close>

definition run_discovery_and_download ::
  "'dt datetime_lib \<Rightarrow> Config \<Rightarrow> session \<Rightarrow> (string set \<Rightarrow> string list) \<Rightarrow>
   ('dt world \<Rightarrow> 'dt world) \<Rightarrow> 'dt world \<Rightarrow> 'dt world" where
  "run_discovery_and_download L cfg B iter threaded w =
     (let w1 = (case seed_queue cfg iter (state w) of
                  Some queue \<Rightarrow>
                    download_worker L cfg B queue (log (Resuming (card (pending (state w)))) w)
                | None \<Rightarrow> threaded w);
          w2 = w1\<lparr>files := save_state L cfg (state w1) (files w1)\<rparr>;
          w3 = (if pending (state w2) = {} \<and> failures (stats w2) = 0
                then w2\<lparr>files := clear_state cfg (files w2)\<rparr> else w2)
      in log (Complete (stats w3)) w3)"

subsection \<open>algolia.py: discovery\<close>

text \<open>
  Python's \<open>len\<close> counts code points, so a prefix is a list of code points. The
  alphabet \<open>SEARCH_CHARS\<close>: A to Z, the three capital umlauts, a to z, the three small
  umlauts, 0 to 9.
\<close>

definition SEARCH_CHARS :: "nat list" where
  "SEARCH_CHARS =
     map of_char ''ABCDEFGHIJKLMNOPQRSTUVWXYZ'' @ [196, 214, 220] @
     map of_char ''abcdefghijklmnopqrstuvwxyz'' @ [228, 246, 252] @
     map of_char ''0123456789''"

definition MAX_DEPTH :: nat where
  "MAX_DEPTH = 3"

definition HITS_PER_PAGE :: nat where
  "HITS_PER_PAGE = 1000"

text \<open>The prefixes to append after a query of \<open>prefix\<close> gave \<open>ids\<close> and \<open>total_hits\<close>.\<close>

definition subdivide :: "nat list \<Rightarrow> string list \<Rightarrow> int \<Rightarrow> nat list list" where
  "subdivide prefix ids total_hits =
     (if length ids \<ge> HITS_PER_PAGE \<and> total_hits > int HITS_PER_PAGE
      then (if length prefix < MAX_DEPTH then map (\<lambda>c. prefix @ [c]) SEARCH_CHARS else [])
      else [])"

text \<open>The loop over \<open>ids\<close>: the identifiers yielded, and \<open>seen_ids\<close> afterwards.\<close>

fun emit :: "string list \<Rightarrow> string set \<Rightarrow> string list \<times> string set" where
  "emit [] seen_ids = ([], seen_ids)"
| "emit (rid # ids) seen_ids =
     (if rid \<notin> seen_ids
      then (let (ys, s) = emit ids (insert rid seen_ids) in (rid # ys, s))
      else emit ids seen_ids)"

text \<open>
  The weight of a prefix of depth \<open>MAX_DEPTH - k\<close>: itself and all its possible
  extensions. It bounds the queries still to come.
\<close>

fun weight :: "nat \<Rightarrow> nat" where
  "weight 0 = 1"
| "weight (Suc k) = 1 + length SEARCH_CHARS * weight k"

text \<open>
  The loop of \<open>discover_all\<close>. \<open>query n prefix\<close> is what \<open>_query_prefix\<close> returns for the
  \<open>n\<close>-th query (\<open>([], 0)\<close> when the request fails). The result is the identifiers
  yielded, in order, and the prefixes queried, in order.
\<close>

function discover_loop ::
  "(nat \<Rightarrow> nat list \<Rightarrow> string list \<times> int) \<Rightarrow> nat \<Rightarrow> nat list list \<Rightarrow> string set \<Rightarrow>
   string list \<times> nat list list" where
  "discover_loop query n [] seen_ids = ([], [])"
| "discover_loop query n (prefix # prefix_queue) seen_ids =
     (let ids = fst (query n prefix);
          total_hits = snd (query n prefix);
          yielded = emit ids seen_ids;
          later = discover_loop query (Suc n) (prefix_queue @ subdivide prefix ids total_hits)
                    (snd yielded)
      in (fst yielded @ fst later, prefix # snd later))"
  by pat_completeness auto
termination
proof (relation "measure (\<lambda>(query, n, prefix_queue, seen_ids).
        sum_list (map (\<lambda>p. weight (MAX_DEPTH - length p)) prefix_queue))", goal_cases)
  case 1
  show ?case by simp
next
  case (2 query n prefix prefix_queue seen_ids ids total_hits yielded)
  have pos: "0 < weight (MAX_DEPTH - length prefix)"
    by (cases "MAX_DEPTH - length prefix") auto
  have step: "length SEARCH_CHARS * weight (MAX_DEPTH - Suc (length prefix))
                < weight (MAX_DEPTH - length prefix)" if "length prefix < MAX_DEPTH"
  proof -
    from that obtain k where k: "MAX_DEPTH - length prefix = Suc k"
      by (cases "MAX_DEPTH - length prefix") auto
    then have "MAX_DEPTH - Suc (length prefix) = k" by simp
    with k show ?thesis by simp
  qed
  show ?case
    using pos step
    by (auto simp: subdivide_def Let_def comp_def sum_list_triv)
qed

definition discover_all ::
  "string option \<Rightarrow> (nat \<Rightarrow> nat list \<Rightarrow> string list \<times> int) \<Rightarrow>
   error + (string list \<times> nat list list)" where
  "discover_all endpoint query =
     (if endpoint = None \<or> endpoint = Some [] then Inl (RuntimeError ''Algolia client not initialized'')
      else Inr (discover_loop query 0 (map (\<lambda>c. [c]) SEARCH_CHARS) {}))"

subsection \<open>Notions for stating the properties\<close>

text \<open>
  The invariant of the traversal: \<open>done\<close> are the prefixes already queried. The queue
  has no repetition and nothing already queried, no prefix is empty, and the parent of
  every prefix longer than one character has been queried.
\<close>

definition queue_inv :: "nat list set \<Rightarrow> nat list list \<Rightarrow> bool" where
  "queue_inv done prefix_queue =
     (distinct prefix_queue \<and> done \<inter> set prefix_queue = {} \<and>
      (\<forall>p \<in> done \<union> set prefix_queue. p \<noteq> [] \<and> (2 \<le> length p \<longrightarrow> butlast p \<in> done)))"


text \<open>
  The invariants of the crawl state as the specification words them: \<open>completed\<close> and
  \<open>pending\<close> are disjoint, \<open>failed\<close> and \<open>pending\<close> are disjoint, and \<open>discovered\<close> contains
  the other three sets.
\<close>

definition state_inv :: "'dt ScrapeState \<Rightarrow> bool" where
  "state_inv st =
     (completed st \<inter> pending st = {} \<and> failed st \<inter> pending st = {} \<and>
      pending st \<union> completed st \<union> failed st \<subseteq> discovered st)"

text \<open>
  The three branches of the scan for what a file holds, and the identifiers of the
  files the scan does not skip.
\<close>

datatype scan_class = Complete_record | Incomplete_record | Unparsable

definition classify :: "stored \<Rightarrow> scan_class" where
  "classify content =
     (case content of
        Unreadable \<Rightarrow> Unparsable
      | Json data \<Rightarrow>
          (case Recipe_from_dict data of
             Inl e \<Rightarrow> Unparsable
           | Inr recipe \<Rightarrow> if is_complete recipe then Complete_record else Incomplete_record))"

definition scanned_ids :: "(string \<times> stored) list \<Rightarrow> string list" where
  "scanned_ids listing = map (\<lambda>e. stem (fst e)) (filter (\<lambda>e. \<not> hidden (fst e)) listing)"

text \<open>
  The condition on a listed file under which the scan keeps the invariants: a file
  with incomplete content is not yet completed or failed, and an unparsable one is
  not pending.
\<close>

definition scan_ok :: "'dt ScrapeState \<Rightarrow> string \<times> stored \<Rightarrow> bool" where
  "scan_ok st e =
     (hidden (fst e) \<or>
      (case classify (snd e) of
         Complete_record \<Rightarrow> True
       | Incomplete_record \<Rightarrow> stem (fst e) \<notin> completed st \<and> stem (fst e) \<notin> failed st
       | Unparsable \<Rightarrow> stem (fst e) \<notin> pending st))"

text \<open>A directory listing with a complete, an incomplete, an unreadable and a hidden file.\<close>

definition sample_listing :: "(string \<times> stored) list" where
  "sample_listing =
     [(''r5.json'', Json (JDict [(''id'', JStr ''r5''), (''ingredients'', JList [JStr ''salt''])])),
      (''r6.json'', Json (JDict [(''id'', JStr ''r6''), (''ingredients'', JList []), (''steps'', JList [])])),
      (''r7.json'', Unreadable),
      (''.scraper_state.json'', Unreadable)]"



subsection \<open>A datetime library and sample data\<close>

text \<open>
  An instance of the datetime parameters, after the standard library's documentation:
  naive datetimes at whole seconds, printed as \<open>YYYY-MM-DDTHH:MM:SS\<close> and read back
  from that form only.
\<close>

record datetime =
  year :: nat
  month :: nat
  day :: nat
  hour :: nat
  minute :: nat
  second :: nat

fun zfill :: "nat \<Rightarrow> nat \<Rightarrow> string" where
  "zfill 0 n = []"
| "zfill (Suc w) n = zfill w (n div 10) @ [char_of (48 + n mod 10)]"

definition naive_isoformat :: "datetime \<Rightarrow> string" where
  "naive_isoformat t =
     zfill 4 (year t) @ ''-'' @ zfill 2 (month t) @ ''-'' @ zfill 2 (day t) @ ''T'' @
     zfill 2 (hour t) @ '':'' @ zfill 2 (minute t) @ '':'' @ zfill 2 (second t)"

fun decimal :: "string \<Rightarrow> nat option" where
  "decimal [] = Some 0"
| "decimal (c # cs) =
     (if isdigit c
      then map_option (\<lambda>n. (of_char c - 48) * 10 ^ length cs + n) (decimal cs)
      else None)"

definition naive_fromisoformat :: "string \<Rightarrow> datetime option" where
  "naive_fromisoformat s =
     (if length s = 19 \<and> s ! 4 = CHR ''-'' \<and> s ! 7 = CHR ''-'' \<and> s ! 10 = CHR ''T'' \<and>
         s ! 13 = CHR '':'' \<and> s ! 16 = CHR '':''
      then
        (case [decimal (take 4 s), decimal (take 2 (drop 5 s)), decimal (take 2 (drop 8 s)),
               decimal (take 2 (drop 11 s)), decimal (take 2 (drop 14 s)),
               decimal (take 2 (drop 17 s))] of
           [Some y, Some mo, Some d, Some h, Some mi, Some se] \<Rightarrow>
             if 1 \<le> y \<and> 1 \<le> mo \<and> mo \<le> 12 \<and> 1 \<le> d \<and> d \<le> 31 \<and> h < 24 \<and> mi < 60 \<and> se < 60
             then Some \<lparr> year = y, month = mo, day = d, hour = h, minute = mi, second = se \<rparr>
             else None
         | _ \<Rightarrow> None)
      else None)"

definition naive_lib :: "datetime datetime_lib" where
  "naive_lib = \<lparr> isoformat = naive_isoformat, fromisoformat = naive_fromisoformat \<rparr>"

definition sample_time :: datetime where
  "sample_time = \<lparr> year = 2024, month = 3, day = 9, hour = 17, minute = 5, second = 30 \<rparr>"

text \<open>
  The default configuration in a given mode (the state file at its default place),
  a state with given \<open>pending\<close>, \<open>completed\<close> and \<open>failed\<close> sets, and Python's set
  iteration in sorted order.
\<close>

definition sample_config :: "RunMode \<Rightarrow> Config" where
  "sample_config m =
     \<lparr> output_dir = ''/data'', state_file = Some ''/data/.scraper_state.json'', mode = m,
       recipe_ids = [], max_retries = 2, save_interval = 10 \<rparr>"

definition sample_state :: "string set \<Rightarrow> string set \<Rightarrow> string set \<Rightarrow> datetime ScrapeState" where
  "sample_state p c f =
     \<lparr> discovered = p \<union> c \<union> f, pending = p, completed = c, failed = f,
       last_updated = Stamp sample_time \<rparr>"

text \<open>
  A parsed page with given ingredients and no steps, a world at the start of a run,
  a session with given pages and outcomes of writes, and a configuration whose state
  file is the record file of \<open>r1\<close>.
\<close>

definition sample_session ::
  "(nat \<Rightarrow> string \<Rightarrow> Recipe option) \<Rightarrow> (nat \<Rightarrow> string \<Rightarrow> write_outcome) \<Rightarrow> session" where
  "sample_session pages outcomes = \<lparr> login_ok = True, page = pages, writes = outcomes \<rparr>"




section \<open>Properties\<close>

subsection \<open>The fetch decision\<close>

text \<open>
  C1. \<open>should_download\<close> is true in the redownload and update modes; in the continue
  mode it is true exactly for the identifiers in \<open>pending\<close> or \<open>failed\<close>; in the
  skip-existing mode it is false for an identifier in \<open>completed\<close> and otherwise true
  exactly when the record file does not exist. After \<open>mark_completed rid\<close> the identifier
  is neither pending nor failed, and \<open>should_download\<close> in the skip-existing mode is false.
\<close>

theorem should_download_table:
  "(mode cfg = REDOWNLOAD_ALL \<longrightarrow> should_download cfg st fs rid) \<and>
   (mode cfg = UPDATE \<longrightarrow> should_download cfg st fs rid) \<and>
   (mode cfg = CONTINUE \<longrightarrow>
      should_download cfg st fs rid = (rid \<in> pending st \<union> failed st)) \<and>
   (mode cfg = SKIP_EXISTING \<longrightarrow>
      (rid \<in> completed st \<longrightarrow> \<not> should_download cfg st fs rid) \<and>
      (rid \<notin> completed st \<longrightarrow>
         should_download cfg st fs rid = (fs (recipe_path cfg rid) = None)) \<and>
      rid \<notin> pending (mark_completed rid st) \<and>
      rid \<notin> failed (mark_completed rid st) \<and>
      \<not> should_download cfg (mark_completed rid st) fs rid)"
  by (simp add: should_download_def recipe_exists_def mark_completed_def)

theorem should_download_table_witness:
  "should_download (sample_config REDOWNLOAD_ALL) (sample_state {} {''r1''} {}) Map.empty ''r1'' \<and>
   should_download (sample_config UPDATE) (sample_state {} {''r1''} {}) Map.empty ''r1'' \<and>
   should_download (sample_config CONTINUE) (sample_state {''r1''} {} {''r3''}) Map.empty ''r3'' \<and>
   \<not> should_download (sample_config CONTINUE) (sample_state {''r1''} {''r2''} {}) Map.empty ''r2'' \<and>
   \<not> should_download (sample_config SKIP_EXISTING) (sample_state {} {''r1''} {}) Map.empty ''r1'' \<and>
   should_download (sample_config SKIP_EXISTING) (sample_state {} {''r1''} {}) Map.empty ''r2'' \<and>
   \<not> should_download (sample_config SKIP_EXISTING) (sample_state {} {''r1''} {})
        [''/data/r2.json'' \<mapsto> Unreadable] ''r2'' \<and>
   \<not> should_download (sample_config SKIP_EXISTING)
        (mark_completed ''r2'' (sample_state {''r2''} {} {})) Map.empty ''r2''"
  using should_download_table [of "sample_config REDOWNLOAD_ALL" "sample_state {} {''r1''} {}" Map.empty "''r1''"]
        should_download_table [of "sample_config UPDATE" "sample_state {} {''r1''} {}" Map.empty "''r1''"]
        should_download_table [of "sample_config CONTINUE" "sample_state {''r1''} {} {''r3''}" Map.empty "''r3''"]
        should_download_table [of "sample_config CONTINUE" "sample_state {''r1''} {''r2''} {}" Map.empty "''r2''"]
        should_download_table [of "sample_config SKIP_EXISTING" "sample_state {} {''r1''} {}" Map.empty "''r1''"]
        should_download_table [of "sample_config SKIP_EXISTING" "sample_state {} {''r1''} {}" Map.empty "''r2''"]
        should_download_table [of "sample_config SKIP_EXISTING" "sample_state {} {''r1''} {}"
           "[''/data/r2.json'' \<mapsto> Unreadable]" "''r2''"]
        should_download_table [of "sample_config SKIP_EXISTING" "sample_state {''r2''} {} {}" Map.empty "''r2''"]
  by (simp add: sample_config_def sample_state_def recipe_path_def path_join_def)

subsection \<open>Identifier normalisation\<close>


text \<open>
  C9. \<open>normalize_id\<close> maps \<open>"123"\<close> to \<open>"r123"\<close>, leaves \<open>"r123"\<close> as it is and gives
  \<open>None\<close> for the empty string; whenever the stripped identifier starts with a digit,
  the result is the stripped identifier with \<open>r\<close> put in front.
\<close>

theorem normalize_id_numeric:
  "normalize_id ''123'' = Some ''r123'' \<and>
   normalize_id ''r123'' = Some ''r123'' \<and>
   normalize_id '''' = None \<and>
   (\<forall>d rest. strip s = d # rest \<and> isdigit d \<longrightarrow> normalize_id s = Some (CHR ''r'' # d # rest))"
  by (simp add: normalize_id_def strip_def isspace_def isdigit_def startswith_r_def
        lstrip_r_def Let_def)

theorem normalize_id_numeric_witness:
  "strip '' 42 '' = ''42'' \<and> isdigit CHR ''4'' \<and> normalize_id '' 42 '' = Some ''r42''"
proof -
  have s: "strip '' 42 '' = CHR ''4'' # ''2''" and d: "isdigit CHR ''4''"
    by (simp_all add: strip_def isspace_def isdigit_def)
  from normalize_id_numeric [of "'' 42 ''"] s d
  have "normalize_id '' 42 '' = Some ''r42''" by blast
  with s d show ?thesis by simp
qed

subsection \<open>Discovery\<close>

lemma length_SEARCH_CHARS: "length SEARCH_CHARS = 68"
  by (simp add: SEARCH_CHARS_def)

lemma distinct_SEARCH_CHARS: "distinct SEARCH_CHARS"
  by (simp add: SEARCH_CHARS_def)

lemma weight_pos: "0 < weight k"
  by (cases k) auto

lemma weight_subdivide:
  "sum_list (map (\<lambda>p. weight (MAX_DEPTH - length p)) (subdivide prefix ids total_hits))
     < weight (MAX_DEPTH - length prefix)"
proof (cases "subdivide prefix ids total_hits = []")
  case True
  then show ?thesis by (simp add: weight_pos)
next
  case False
  then have lt: "length prefix < MAX_DEPTH"
    and sub: "subdivide prefix ids total_hits = map (\<lambda>c. prefix @ [c]) SEARCH_CHARS"
    by (auto simp: subdivide_def split: if_splits)
  from lt obtain k where k: "MAX_DEPTH - length prefix = Suc k"
    by (cases "MAX_DEPTH - length prefix") auto
  then have "MAX_DEPTH - Suc (length prefix) = k" by simp
  with k sub show ?thesis by (simp add: comp_def sum_list_triv)
qed

lemma discover_loop_count:
  "length (snd (discover_loop query n prefix_queue seen_ids))
     \<le> sum_list (map (\<lambda>p. weight (MAX_DEPTH - length p)) prefix_queue)"
proof (induction query n prefix_queue seen_ids rule: discover_loop.induct)
  case (1 query n seen_ids)
  show ?case by simp
next
  case (2 query n prefix prefix_queue seen_ids)
  let ?ids = "fst (query n prefix)" and ?total = "snd (query n prefix)"
  have "length (snd (discover_loop query (Suc n) (prefix_queue @ subdivide prefix ?ids ?total)
           (snd (emit ?ids seen_ids))))
        \<le> sum_list (map (\<lambda>p. weight (MAX_DEPTH - length p)) (prefix_queue @ subdivide prefix ?ids ?total))"
    using "2.IH" by simp
  moreover note weight_subdivide [of prefix ?ids ?total]
  ultimately show ?case by (simp add: Let_def)
qed

lemma queue_inv_step:
  assumes "queue_inv done (prefix # prefix_queue)"
  shows "queue_inv (insert prefix done) (prefix_queue @ subdivide prefix ids total_hits)"
proof (cases "subdivide prefix ids total_hits = []")
  case True
  with assms show ?thesis by (auto simp: queue_inv_def)
next
  case False
  then have sub: "subdivide prefix ids total_hits = map (\<lambda>c. prefix @ [c]) SEARCH_CHARS"
    by (auto simp: subdivide_def split: if_splits)
  have ne: "prefix \<noteq> []" and nd: "prefix \<notin> done" and nq: "prefix \<notin> set prefix_queue"
    using assms by (auto simp: queue_inv_def)
  have fresh: "prefix @ [c] \<notin> done \<union> set prefix_queue" for c
  proof
    assume in_: "prefix @ [c] \<in> done \<union> set prefix_queue"
    have "2 \<le> length (prefix @ [c])" using ne by (cases prefix) auto
    with in_ assms have "butlast (prefix @ [c]) \<in> done"
      unfolding queue_inv_def by (metis UnCI UnE list.set_intros(2))
    with nd show False by simp
  qed
  have d: "distinct (map (\<lambda>c. prefix @ [c]) SEARCH_CHARS)"
    using distinct_SEARCH_CHARS by (simp add: distinct_map inj_on_def)
  show ?thesis
    unfolding queue_inv_def sub
    using assms fresh d ne nd nq
    by (auto simp: queue_inv_def)
qed

lemma discover_loop_distinct:
  "queue_inv done prefix_queue \<Longrightarrow>
   distinct (snd (discover_loop query n prefix_queue seen_ids)) \<and>
   set (snd (discover_loop query n prefix_queue seen_ids)) \<inter> done = {}"
proof (induction query n prefix_queue seen_ids arbitrary: "done" rule: discover_loop.induct)
  case (1 query n seen_ids)
  show ?case by simp
next
  case (2 query n prefix prefix_queue seen_ids)
  let ?ids = "fst (query n prefix)" and ?total = "snd (query n prefix)"
  from queue_inv_step [OF "2.prems"]
  have "queue_inv (insert prefix done) (prefix_queue @ subdivide prefix ?ids ?total)" .
  from "2.IH" [OF refl refl refl this]
  have "distinct (snd (discover_loop query (Suc n) (prefix_queue @ subdivide prefix ?ids ?total)
           (snd (emit ?ids seen_ids))))"
    and "set (snd (discover_loop query (Suc n) (prefix_queue @ subdivide prefix ?ids ?total)
           (snd (emit ?ids seen_ids)))) \<inter> insert prefix done = {}"
    by simp_all
  moreover have "prefix \<notin> done" using "2.prems" by (auto simp: queue_inv_def)
  ultimately show ?case by (auto simp: Let_def)
qed

lemma queue_inv_init: "queue_inv {} (map (\<lambda>c. [c]) SEARCH_CHARS)"
  using distinct_SEARCH_CHARS by (auto simp: queue_inv_def distinct_map inj_on_def)

lemma weight_2: "weight 2 = 1 + 68 + 68 * 68"
proof -
  have "weight (Suc (Suc 0)) = 1 + 68 + 68 * 68"
    by (simp add: length_SEARCH_CHARS)
  then show ?thesis by (simp add: numeral_2_eq_2)
qed

lemma init_weight:
  "sum_list (map (\<lambda>p. weight (MAX_DEPTH - length p)) (map (\<lambda>c. [c]) SEARCH_CHARS)) = 68 + 68^2 + 68^3"
proof -
  have "sum_list (map (\<lambda>p. weight (MAX_DEPTH - length p)) (map (\<lambda>c. [c]) SEARCH_CHARS))
        = length SEARCH_CHARS * weight 2"
    by (simp add: comp_def sum_list_triv MAX_DEPTH_def)
  also have "\<dots> = 68 + 68^2 + 68^3"
    by (simp add: length_SEARCH_CHARS weight_2)
  finally show ?thesis .
qed

text \<open>
  C5. After the query of a prefix, the loop goes on with the queue extended by
  \<open>subdivide\<close>, which is non-empty exactly when the query gave at least 1000
  identifiers, a total above 1000, and the extended prefix is at most 3 long; it is
  then the prefix extended by each of the 68 alphabet characters, once each.
\<close>

theorem subdivide_iff:
  "subdivide prefix ids total_hits =
     (if 1000 \<le> length ids \<and> 1000 < total_hits \<and> length prefix + 1 \<le> 3
      then map (\<lambda>c. prefix @ [c]) SEARCH_CHARS else []) \<and>
   (subdivide prefix ids total_hits \<noteq> []) =
     (1000 \<le> length ids \<and> 1000 < total_hits \<and> length prefix + 1 \<le> 3) \<and>
   length (map (\<lambda>c. prefix @ [c]) SEARCH_CHARS) = 68 \<and>
   distinct (map (\<lambda>c. prefix @ [c]) SEARCH_CHARS) \<and>
   snd (discover_loop query n (prefix # prefix_queue) seen_ids) =
     prefix # snd (discover_loop query (Suc n)
       (prefix_queue @ subdivide prefix (fst (query n prefix)) (snd (query n prefix)))
       (snd (emit (fst (query n prefix)) seen_ids)))"
proof -
  have ne: "SEARCH_CHARS \<noteq> []"
    using length_SEARCH_CHARS by auto
  have d: "distinct (map (\<lambda>c. prefix @ [c]) SEARCH_CHARS)"
    using distinct_SEARCH_CHARS by (simp add: distinct_map inj_on_def)
  show ?thesis
    using ne d
    by (simp add: subdivide_def HITS_PER_PAGE_def MAX_DEPTH_def length_SEARCH_CHARS Let_def)
qed

theorem subdivide_iff_witness:
  "subdivide [of_char CHR ''a''] (replicate 1000 ''r1'') 2500 =
     map (\<lambda>c. [of_char CHR ''a'', c]) SEARCH_CHARS \<and>
   length (subdivide [of_char CHR ''a''] (replicate 1000 ''r1'') 2500) = 68 \<and>
   subdivide [of_char CHR ''a''] (replicate 999 ''r1'') 2500 = [] \<and>
   subdivide [of_char CHR ''a''] (replicate 1000 ''r1'') 1000 = [] \<and>
   subdivide [1, 2, 3] (replicate 1000 ''r1'') 2500 = []"
  using subdivide_iff [of "[of_char CHR ''a'']" "replicate 1000 ''r1''" 2500]
        subdivide_iff [of "[of_char CHR ''a'']" "replicate 999 ''r1''" 2500]
        subdivide_iff [of "[of_char CHR ''a'']" "replicate 1000 ''r1''" 1000]
        subdivide_iff [of "[1, 2, 3]" "replicate 1000 ''r1''" 2500]
  by simp

text \<open>
  C6. \<open>discover_all\<close> on an initialised client returns (the traversal is a total
  function), no prefix is queried twice, and at most \<open>68 + 68\<^sup>2 + 68\<^sup>3\<close> queries are
  made, 68 being the size of the alphabet.
\<close>

theorem discover_all_bounded:
  "endpoint \<noteq> None \<and> endpoint \<noteq> Some [] \<longrightarrow>
   (\<exists>ys ps. discover_all endpoint query = Inr (ys, ps) \<and> distinct ps \<and>
      length ps \<le> length SEARCH_CHARS + length SEARCH_CHARS ^ 2 + length SEARCH_CHARS ^ 3 \<and>
      length ps \<le> 68 + 68 ^ 2 + 68 ^ 3)"
proof
  assume ep: "endpoint \<noteq> None \<and> endpoint \<noteq> Some []"
  let ?r = "discover_loop query 0 (map (\<lambda>c. [c]) SEARCH_CHARS) {}"
  have r: "discover_all endpoint query = Inr (fst ?r, snd ?r)"
    using ep by (simp add: discover_all_def)
  have "distinct (snd ?r)"
    using discover_loop_distinct [OF queue_inv_init] by blast
  moreover have "length (snd ?r) \<le> 68 + 68 ^ 2 + 68 ^ 3"
    using discover_loop_count [of query 0 "map (\<lambda>c. [c]) SEARCH_CHARS" "{}"]
    unfolding init_weight .
  ultimately show "\<exists>ys ps. discover_all endpoint query = Inr (ys, ps) \<and> distinct ps \<and>
      length ps \<le> length SEARCH_CHARS + length SEARCH_CHARS ^ 2 + length SEARCH_CHARS ^ 3 \<and>
      length ps \<le> 68 + 68 ^ 2 + 68 ^ 3"
    using r by (intro exI [of _ "fst ?r"] exI [of _ "snd ?r"]) (simp add: length_SEARCH_CHARS)
qed

theorem discover_all_bounded_witness:
  "\<exists>ys ps. discover_all (Some ''https://app-dsn.algolia.net/1/indexes/recipes/query'')
              (\<lambda>n prefix. ([], 0)) = Inr (ys, ps) \<and>
     distinct ps \<and> length ps \<le> 68 + 68 ^ 2 + 68 ^ 3"
  using discover_all_bounded [of "Some ''https://app-dsn.algolia.net/1/indexes/recipes/query''"
          "\<lambda>n prefix. ([], 0)"]
  by auto

subsection \<open>The recovery file\<close>

lemma str_set_strs: "str_set (JList (map JStr xs)) = Inr (set xs)"
  by (cases xs) (auto simp: str_set_def py_or_def list_ex_iff list_all_iff comp_def)

lemma from_dict_lists:
  assumes "fromisoformat L (isoformat L t) = Some t"
  shows "ScrapeState_from_dict L now
           (JDict [(''discovered'', JList (map JStr xs)), (''pending'', JList (map JStr ys)),
                   (''completed'', JList (map JStr zs)), (''failed'', JList (map JStr ws)),
                   (''last_updated'', JStr (isoformat L t))])
         = Inr \<lparr> discovered = set xs, pending = set ys, completed = set zs, failed = set ws,
                 last_updated = Stamp t \<rparr>"
  using assms
  by (simp add: ScrapeState_from_dict_def dict_get_def str_set_strs four_sets_def)

lemma to_dict_sorted:
  "last_updated st = Stamp t \<Longrightarrow>
   ScrapeState_to_dict L st = Inr
     (JDict [(''discovered'', JList (map JStr (sorted_list_of_set (discovered st)))),
             (''pending'', JList (map JStr (sorted_list_of_set (pending st)))),
             (''completed'', JList (map JStr (sorted_list_of_set (completed st)))),
             (''failed'', JList (map JStr (sorted_list_of_set (failed st)))),
             (''last_updated'', JStr (isoformat L t))])"
  by (simp add: ScrapeState_to_dict_def sorted_strs_def)

lemma from_dict_to_dict:
  assumes "finite (discovered st)" "finite (pending st)" "finite (completed st)" "finite (failed st)"
    and "last_updated st = Stamp t" and "fromisoformat L (isoformat L t) = Some t"
  shows "\<exists>d. ScrapeState_to_dict L st = Inr d \<and> ScrapeState_from_dict L now d = Inr st"
  using assms(1-5) to_dict_sorted [OF assms(5), of L]
    from_dict_lists [OF assms(6), of now "sorted_list_of_set (discovered st)"
      "sorted_list_of_set (pending st)" "sorted_list_of_set (completed st)"
      "sorted_list_of_set (failed st)"]
  by simp

text \<open>
  C7. For a state of four finite sets whose timestamp is a datetime that the library
  reads back from its ISO form, \<open>from_dict\<close> of \<open>to_dict\<close> is the state again, and so is
  \<open>_load_state\<close> after \<open>save_state\<close> on a configured state file. The arrays written are
  the sorted sets, and \<open>from_dict\<close> gives the same state for the elements in any order.
\<close>

theorem state_roundtrip:
  "finite (discovered st) \<and> finite (pending st) \<and> finite (completed st) \<and> finite (failed st) \<and>
   last_updated st = Stamp t \<and> fromisoformat L (isoformat L t) = Some t \<longrightarrow>
   (\<exists>d. ScrapeState_to_dict L st = Inr d \<and> ScrapeState_from_dict L now d = Inr st) \<and>
   (state_file cfg = Some p \<longrightarrow> load_state L now0 now cfg (save_state L cfg st fs) = Inr st) \<and>
   ScrapeState_to_dict L st = Inr
     (JDict [(''discovered'', JList (map JStr (sorted_list_of_set (discovered st)))),
             (''pending'', JList (map JStr (sorted_list_of_set (pending st)))),
             (''completed'', JList (map JStr (sorted_list_of_set (completed st)))),
             (''failed'', JList (map JStr (sorted_list_of_set (failed st)))),
             (''last_updated'', JStr (isoformat L t))]) \<and>
   (\<forall>xs ys zs ws.
      set xs = discovered st \<and> set ys = pending st \<and> set zs = completed st \<and> set ws = failed st \<longrightarrow>
      ScrapeState_from_dict L now
        (JDict [(''discovered'', JList (map JStr xs)), (''pending'', JList (map JStr ys)),
                (''completed'', JList (map JStr zs)), (''failed'', JList (map JStr ws)),
                (''last_updated'', JStr (isoformat L t))]) = Inr st)"
proof (intro impI, elim conjE)
  assume fin: "finite (discovered st)" "finite (pending st)" "finite (completed st)"
    "finite (failed st)"
    and lu: "last_updated st = Stamp t" and iso: "fromisoformat L (isoformat L t) = Some t"
  from from_dict_to_dict [OF fin lu iso, of now]
  obtain d where d: "ScrapeState_to_dict L st = Inr d" "ScrapeState_from_dict L now d = Inr st"
    by blast
  have on_disk: "load_state L now0 now cfg (save_state L cfg st fs) = Inr st"
    if "state_file cfg = Some p"
    using that d by (simp add: load_state_def save_state_def write_file_def)
  have any_order: "ScrapeState_from_dict L now
        (JDict [(''discovered'', JList (map JStr xs)), (''pending'', JList (map JStr ys)),
                (''completed'', JList (map JStr zs)), (''failed'', JList (map JStr ws)),
                (''last_updated'', JStr (isoformat L t))]) = Inr st"
    if "set xs = discovered st" "set ys = pending st" "set zs = completed st" "set ws = failed st"
    for xs ys zs ws
    using that lu from_dict_lists [OF iso, of now xs ys zs ws] by simp
  show "(\<exists>d. ScrapeState_to_dict L st = Inr d \<and> ScrapeState_from_dict L now d = Inr st) \<and>
   (state_file cfg = Some p \<longrightarrow> load_state L now0 now cfg (save_state L cfg st fs) = Inr st) \<and>
   ScrapeState_to_dict L st = Inr
     (JDict [(''discovered'', JList (map JStr (sorted_list_of_set (discovered st)))),
             (''pending'', JList (map JStr (sorted_list_of_set (pending st)))),
             (''completed'', JList (map JStr (sorted_list_of_set (completed st)))),
             (''failed'', JList (map JStr (sorted_list_of_set (failed st)))),
             (''last_updated'', JStr (isoformat L t))]) \<and>
   (\<forall>xs ys zs ws.
      set xs = discovered st \<and> set ys = pending st \<and> set zs = completed st \<and> set ws = failed st \<longrightarrow>
      ScrapeState_from_dict L now
        (JDict [(''discovered'', JList (map JStr xs)), (''pending'', JList (map JStr ys)),
                (''completed'', JList (map JStr zs)), (''failed'', JList (map JStr ws)),
                (''last_updated'', JStr (isoformat L t))]) = Inr st)"
    using d on_disk any_order to_dict_sorted [OF lu, of L] by blast
qed

theorem state_roundtrip_witness:
  "naive_fromisoformat (naive_isoformat sample_time) = Some sample_time \<and>
   load_state naive_lib sample_time sample_time (sample_config SKIP_EXISTING)
     (save_state naive_lib (sample_config SKIP_EXISTING)
        (sample_state {''r2'', ''r1''} {''r3''} {''r4''}) Map.empty)
     = Inr (sample_state {''r2'', ''r1''} {''r3''} {''r4''}) \<and>
   ScrapeState_from_dict naive_lib sample_time
     (JDict [(''discovered'', JList (map JStr [''r4'', ''r1'', ''r3'', ''r2'', ''r1''])),
             (''pending'', JList (map JStr [''r2'', ''r1''])),
             (''completed'', JList (map JStr [''r3''])),
             (''failed'', JList (map JStr [''r4''])),
             (''last_updated'', JStr (naive_isoformat sample_time))])
     = Inr (sample_state {''r2'', ''r1''} {''r3''} {''r4''})"
proof -
  have iso: "naive_fromisoformat (naive_isoformat sample_time) = Some sample_time"
    by code_simp
  let ?st = "sample_state {''r2'', ''r1''} {''r3''} {''r4''}"
  have hyp: "finite (discovered ?st) \<and> finite (pending ?st) \<and> finite (completed ?st) \<and>
     finite (failed ?st) \<and> last_updated ?st = Stamp sample_time \<and>
     fromisoformat naive_lib (isoformat naive_lib sample_time) = Some sample_time"
    using iso by (simp add: sample_state_def naive_lib_def)
  have sf: "state_file (sample_config SKIP_EXISTING) = Some ''/data/.scraper_state.json''"
    by (simp add: sample_config_def)
  have sets: "set [''r4'', ''r1'', ''r3'', ''r2'', ''r1''] = discovered ?st \<and>
    set [''r2'', ''r1''] = pending ?st \<and> set [''r3''] = completed ?st \<and> set [''r4''] = failed ?st"
    by (auto simp: sample_state_def)
  note C = state_roundtrip [of ?st sample_time naive_lib sample_time "sample_config SKIP_EXISTING"
      "''/data/.scraper_state.json''" sample_time Map.empty, THEN mp, OF hyp]
  note l = C [THEN conjunct2, THEN conjunct1, THEN mp, OF sf]
  note f = C [THEN conjunct2, THEN conjunct2, THEN conjunct2, THEN spec, THEN spec, THEN spec,
      THEN spec, THEN mp, OF sets]
  from iso l f show ?thesis
    by (simp add: naive_lib_def)
qed

subsection \<open>Resuming from the pending set\<close>

text \<open>
  C4. In the continue mode with a non-empty \<open>pending\<close> set, the queue is seeded with
  the elements of \<open>pending\<close> and nothing else, so an identifier that is only in \<open>failed\<close> is
  not enqueued; the discovery thread is not started: the run does not depend on it.
\<close>

theorem seed_queue_pending:
  "mode cfg = CONTINUE \<and> pending (state w) \<noteq> {} \<and>
   set (iter (pending (state w))) = pending (state w) \<longrightarrow>
   (\<exists>queue. seed_queue cfg iter (state w) = Some queue \<and> set queue = pending (state w) \<and>
      (\<forall>rid \<in> failed (state w) - pending (state w). rid \<notin> set queue)) \<and>
   (\<forall>threaded threaded'.
      run_discovery_and_download L cfg B iter threaded w =
      run_discovery_and_download L cfg B iter threaded' w)"
  by (auto simp: seed_queue_def run_discovery_and_download_def)

theorem seed_queue_pending_witness:
  "seed_queue (sample_config CONTINUE) sorted_list_of_set
     (sample_state {''r1'', ''r2''} {} {''r3''}) = Some [''r1'', ''r2''] \<and>
   set [''r1'', ''r2''] = pending (sample_state {''r1'', ''r2''} {} {''r3''}) \<and>
   ''r3'' \<notin> set [''r1'', ''r2'']"
proof -
  let ?w = "\<lparr> state = sample_state {''r1'', ''r2''} {} {''r3''},
              stats = \<lparr> discovered_count = 0, downloaded = 0, skipped = 0, updated = 0,
                        failures = 0, prefixes_queried = 0 \<rparr>,
              files = Map.empty, gets = 0, logs = [] \<rparr>"
  have q: "seed_queue (sample_config CONTINUE) sorted_list_of_set
     (sample_state {''r1'', ''r2''} {} {''r3''}) = Some [''r1'', ''r2'']"
    by code_simp
  have hyp: "mode (sample_config CONTINUE) = CONTINUE \<and> pending (state ?w) \<noteq> {} \<and>
     set (sorted_list_of_set (pending (state ?w))) = pending (state ?w)"
    by (simp add: sample_config_def sample_state_def)
  from seed_queue_pending [of "sample_config CONTINUE" ?w sorted_list_of_set naive_lib
      "sample_session (\<lambda>n rid. None) (\<lambda>n p. Written)"] hyp q
  show ?thesis
    by (auto simp: sample_state_def)
qed

subsection \<open>The invariants of the crawl state\<close>

text \<open>
  The names \<open>glob("*.json")\<close> lists are distinct and end in \<open>.json\<close>, so the identifiers
  of the files that are not skipped are distinct.
\<close>

lemma stem_json: "x \<noteq> [] \<Longrightarrow> stem (x @ ''.json'') = x"
  by (simp add: stem_def Let_def)

lemma distinct_scanned_ids:
  assumes "distinct (map fst listing)"
    and "\<forall>name \<in> fst ` set listing. \<exists>x. name = x @ ''.json''"
  shows "distinct (scanned_ids listing)"
proof -
  have inj: "inj_on (\<lambda>e. stem (fst e)) {e \<in> set listing. \<not> hidden (fst e)}"
  proof (rule inj_onI)
    fix a b
    assume a: "a \<in> {e \<in> set listing. \<not> hidden (fst e)}"
      and b: "b \<in> {e \<in> set listing. \<not> hidden (fst e)}"
      and eq: "stem (fst a) = stem (fst b)"
    from a assms(2) obtain x where x: "fst a = x @ ''.json''" by auto
    from b assms(2) obtain y where y: "fst b = y @ ''.json''" by auto
    from a x have "x \<noteq> []" by (auto simp: hidden_def)
    moreover from b y have "y \<noteq> []" by (auto simp: hidden_def)
    ultimately have "fst a = fst b" using eq x y by (simp add: stem_json)
    with assms(1) a b show "a = b"
      by (auto simp: distinct_map inj_on_def)
  qed
  have "distinct (filter (\<lambda>e. \<not> hidden (fst e)) listing)"
    using assms(1) by (simp add: distinct_map)
  with inj show ?thesis
    by (simp add: scanned_ids_def distinct_map)
qed

lemma scan_file_classify:
  "scan_file (name, content) st =
     (if hidden name then st
      else case classify content of
        Unparsable \<Rightarrow> scan_unparsable (stem name) st
      | Complete_record \<Rightarrow>
          st\<lparr>discovered := insert (stem name) (discovered st),
             completed := insert (stem name) (completed st),
             pending := pending st - {stem name}\<rparr>
      | Incomplete_record \<Rightarrow>
          st\<lparr>discovered := insert (stem name) (discovered st),
             pending := insert (stem name) (pending st)\<rparr>)"
  by (auto simp: scan_file_def classify_def scan_parsed_def Let_def
           split: stored.splits sum.splits)

lemma scan_file_frame:
  assumes "rid \<noteq> stem (fst e) \<or> hidden (fst e)"
  shows "(rid \<in> pending (scan_file e st)) = (rid \<in> pending st)"
    and "(rid \<in> completed (scan_file e st)) = (rid \<in> completed st)"
    and "(rid \<in> failed (scan_file e st)) = (rid \<in> failed st)"
    and "(rid \<in> discovered (scan_file e st)) = (rid \<in> discovered st)"
  using assms
  by (cases e; auto simp: scan_file_classify scan_unparsable_def split: scan_class.splits)+

lemma scan_file_failed: "failed (scan_file e st) = failed st"
  by (cases e) (auto simp: scan_file_classify scan_unparsable_def split: scan_class.splits)

lemma scan_file_discovered: "discovered st \<subseteq> discovered (scan_file e st)"
  by (cases e) (auto simp: scan_file_classify scan_unparsable_def split: scan_class.splits)

lemma scan_file_inv:
  "state_inv st \<Longrightarrow> scan_ok st e \<Longrightarrow> state_inv (scan_file e st)"
  by (cases e)
     (auto simp: scan_file_classify scan_unparsable_def state_inv_def scan_ok_def
           split: scan_class.splits)

lemma scan_ok_frame:
  assumes "scan_ok st e'" and "hidden (fst e) \<or> hidden (fst e') \<or> stem (fst e) \<noteq> stem (fst e')"
  shows "scan_ok (scan_file e st) e'"
proof (cases "hidden (fst e')")
  case True
  then show ?thesis by (simp add: scan_ok_def)
next
  case False
  with assms(2) have d: "stem (fst e') \<noteq> stem (fst e) \<or> hidden (fst e)" by auto
  show ?thesis
    using assms(1) False
    by (auto simp: scan_ok_def scan_file_frame [OF d] split: scan_class.splits)
qed

lemma fold_scan_inv:
  "state_inv st \<Longrightarrow> distinct (scanned_ids listing) \<Longrightarrow> \<forall>e \<in> set listing. scan_ok st e \<Longrightarrow>
   state_inv (fold scan_file listing st)"
proof (induction listing arbitrary: st)
  case Nil
  then show ?case by simp
next
  case (Cons e listing)
  have inv: "state_inv (scan_file e st)"
    using Cons.prems by (simp add: scan_file_inv)
  have dist: "distinct (scanned_ids listing)"
    using Cons.prems(2) by (simp add: scanned_ids_def split: if_splits)
  have ok: "scan_ok (scan_file e st) e'" if "e' \<in> set listing" for e'
  proof (rule scan_ok_frame)
    show "scan_ok st e'" using Cons.prems(3) that by simp
    show "hidden (fst e) \<or> hidden (fst e') \<or> stem (fst e) \<noteq> stem (fst e')"
      using Cons.prems(2) that by (auto simp: scanned_ids_def split: if_splits)
  qed
  from Cons.IH [OF inv dist] ok show ?case by simp
qed

lemma fold_scan_discovered: "discovered st \<subseteq> discovered (fold scan_file listing st)"
proof (induction listing arbitrary: st)
  case Nil
  show ?case by simp
next
  case (Cons e listing)
  from Cons.IH [of "scan_file e st"] scan_file_discovered [of st e] show ?case by auto
qed

lemma fold_scan_frame:
  "rid \<notin> set (scanned_ids listing) \<Longrightarrow>
   (rid \<in> pending (fold scan_file listing st)) = (rid \<in> pending st) \<and>
   (rid \<in> completed (fold scan_file listing st)) = (rid \<in> completed st)"
proof (induction listing arbitrary: st)
  case Nil
  show ?case by simp
next
  case (Cons e listing)
  have e: "rid \<noteq> stem (fst e) \<or> hidden (fst e)"
    using Cons.prems by (auto simp: scanned_ids_def split: if_splits)
  have "rid \<notin> set (scanned_ids listing)"
    using Cons.prems by (auto simp: scanned_ids_def split: if_splits)
  from Cons.IH [OF this, of "scan_file e st"] scan_file_frame(1,2) [OF e, of st]
  show ?case by simp
qed

text \<open>
  C2, as the code has it. \<open>mark_discovered\<close> keeps the invariants. \<open>mark_completed\<close> and
  \<open>mark_failed\<close> keep the two disjointness invariants, and all three invariants for
  an identifier already in \<open>discovered\<close>. \<open>mark_pending\<close> keeps them for an identifier
  that is in \<open>discovered\<close> and in neither \<open>completed\<close> nor \<open>failed\<close>. The scan keeps them
  when the scanned identifiers are distinct and every listed file satisfies \<open>scan_ok\<close>.
  None of these operations removes an element of \<open>discovered\<close>.
\<close>

theorem mutators_keep_invariants:
  "(state_inv st \<longrightarrow>
      state_inv (mark_discovered rid st) \<and>
      (rid \<in> discovered st \<longrightarrow>
         state_inv (mark_completed rid st) \<and> state_inv (mark_failed rid st)) \<and>
      (rid \<in> discovered st \<and> rid \<notin> completed st \<and> rid \<notin> failed st \<longrightarrow>
         state_inv (mark_pending rid st)) \<and>
      (distinct (scanned_ids listing) \<and> (\<forall>e \<in> set listing. scan_ok st e) \<longrightarrow>
         state_inv (scan_existing_recipes is_dir listing st))) \<and>
   (completed st \<inter> pending st = {} \<and> failed st \<inter> pending st = {} \<longrightarrow>
      completed (mark_completed rid st) \<inter> pending (mark_completed rid st) = {} \<and>
      failed (mark_completed rid st) \<inter> pending (mark_completed rid st) = {} \<and>
      completed (mark_failed rid st) \<inter> pending (mark_failed rid st) = {} \<and>
      failed (mark_failed rid st) \<inter> pending (mark_failed rid st) = {}) \<and>
   discovered st \<subseteq> discovered (mark_discovered rid st) \<and>
   discovered st \<subseteq> discovered (mark_pending rid st) \<and>
   discovered st \<subseteq> discovered (mark_completed rid st) \<and>
   discovered st \<subseteq> discovered (mark_failed rid st) \<and>
   discovered st \<subseteq> discovered (scan_existing_recipes is_dir listing st)"
proof -
  have marks: "state_inv st \<Longrightarrow> state_inv (mark_discovered rid st)"
    "state_inv st \<Longrightarrow> rid \<in> discovered st \<Longrightarrow> state_inv (mark_completed rid st)"
    "state_inv st \<Longrightarrow> rid \<in> discovered st \<Longrightarrow> state_inv (mark_failed rid st)"
    "state_inv st \<Longrightarrow> rid \<in> discovered st \<Longrightarrow> rid \<notin> completed st \<Longrightarrow> rid \<notin> failed st \<Longrightarrow>
       state_inv (mark_pending rid st)"
    by (auto simp: state_inv_def mark_discovered_def mark_completed_def mark_failed_def
          mark_pending_def)
  have scan: "state_inv (scan_existing_recipes is_dir listing st)"
    if "state_inv st" "distinct (scanned_ids listing)" "\<forall>e \<in> set listing. scan_ok st e"
    using that fold_scan_inv [of st listing] by (simp add: scan_existing_recipes_def)
  have disj: "completed (mark_completed rid st) \<inter> pending (mark_completed rid st) = {} \<and>
      failed (mark_completed rid st) \<inter> pending (mark_completed rid st) = {} \<and>
      completed (mark_failed rid st) \<inter> pending (mark_failed rid st) = {} \<and>
      failed (mark_failed rid st) \<inter> pending (mark_failed rid st) = {}"
    if "completed st \<inter> pending st = {}" "failed st \<inter> pending st = {}"
    using that by (auto simp: mark_completed_def mark_failed_def)
  have mono: "discovered st \<subseteq> discovered (mark_discovered rid st)"
    "discovered st \<subseteq> discovered (mark_pending rid st)"
    "discovered st \<subseteq> discovered (mark_completed rid st)"
    "discovered st \<subseteq> discovered (mark_failed rid st)"
    by (auto simp: mark_discovered_def mark_completed_def mark_failed_def mark_pending_def)
  have mono_scan: "discovered st \<subseteq> discovered (scan_existing_recipes is_dir listing st)"
    using fold_scan_discovered [of st listing] by (simp add: scan_existing_recipes_def)
  show ?thesis
    using marks scan disj mono mono_scan by blast
qed

theorem mutators_keep_invariants_witness:
  "state_inv (sample_state {''r1''} {''r2''} {''r3''}) \<and>
   state_inv (mark_discovered ''r9'' (sample_state {''r1''} {''r2''} {''r3''})) \<and>
   state_inv (mark_completed ''r1'' (sample_state {''r1''} {''r2''} {''r3''})) \<and>
   state_inv (mark_failed ''r1'' (sample_state {''r1''} {''r2''} {''r3''})) \<and>
   state_inv (mark_pending ''r1'' (sample_state {''r1''} {''r2''} {''r3''})) \<and>
   state_inv (scan_existing_recipes True sample_listing (sample_state {''r1''} {''r2''} {''r3''}))"
proof -
  let ?st = "sample_state {''r1''} {''r2''} {''r3''}"
  have inv: "state_inv ?st"
    by (simp add: state_inv_def sample_state_def)
  have r1: "''r1'' \<in> discovered ?st \<and> ''r1'' \<notin> completed ?st \<and> ''r1'' \<notin> failed ?st"
    by (simp add: sample_state_def)
  have ids: "scanned_ids sample_listing = [''r5'', ''r6'', ''r7'']"
    by (simp add: scanned_ids_def sample_listing_def hidden_def stem_def)
  have ok: "\<forall>e \<in> set sample_listing. scan_ok ?st e"
    by (simp add: sample_listing_def scan_ok_def hidden_def stem_def sample_state_def
          classify_def Recipe_from_dict_def is_complete_def py_or_def dict_get_def)
  have d: "distinct (scanned_ids sample_listing)"
    by (simp add: ids)
  from mutators_keep_invariants [of ?st "''r9''" sample_listing True] inv
  have a: "state_inv (mark_discovered ''r9'' ?st)"
    and b: "state_inv (scan_existing_recipes True sample_listing ?st)"
    using d ok by blast+
  from mutators_keep_invariants [of ?st "''r1''" sample_listing True] inv r1
  have c: "state_inv (mark_completed ''r1'' ?st)" "state_inv (mark_failed ''r1'' ?st)"
    "state_inv (mark_pending ''r1'' ?st)"
    by blast+
  from inv a b c show ?thesis by simp
qed

text \<open>
  The invariants are not kept in general: \<open>mark_pending\<close> of a completed or a failed
  identifier, any of the three marks on an identifier that is not discovered, and the
  scan of a file with incomplete content whose identifier is completed.
\<close>

theorem mutators_break_invariants:
  "state_inv (sample_state {} {''r1''} {}) \<and>
   \<not> state_inv (mark_pending ''r1'' (sample_state {} {''r1''} {})) \<and>
   state_inv (sample_state {} {} {''r1''}) \<and>
   \<not> state_inv (mark_pending ''r1'' (sample_state {} {} {''r1''})) \<and>
   state_inv (sample_state {} {} {}) \<and>
   \<not> state_inv (mark_pending ''r1'' (sample_state {} {} {})) \<and>
   \<not> state_inv (mark_completed ''r1'' (sample_state {} {} {})) \<and>
   \<not> state_inv (mark_failed ''r1'' (sample_state {} {} {})) \<and>
   \<not> state_inv (scan_existing_recipes True
        [(''r1.json'', Json (JDict [(''ingredients'', JList []), (''steps'', JList [])]))]
        (sample_state {} {''r1''} {}))"
  by (simp add: state_inv_def sample_state_def mark_pending_def mark_completed_def
        mark_failed_def scan_existing_recipes_def scan_file_def hidden_def stem_def
        Recipe_from_dict_def scan_parsed_def is_complete_def py_or_def dict_get_def Let_def)

subsection \<open>The startup scan\<close>

text \<open>
  What the scan does with a listed file that it does not skip, the identifiers of the
  scanned files being distinct: a complete record ends up completed and not pending,
  an incomplete one (such as a record with empty \<open>ingredients\<close> and \<open>steps\<close>) pending,
  and an unparsable file completed, pending exactly if it was pending before.
\<close>

lemma empty_record_incomplete:
  "classify (Json (JDict [(''ingredients'', JList []), (''steps'', JList [])])) = Incomplete_record"
  by (simp add: classify_def Recipe_from_dict_def is_complete_def py_or_def dict_get_def)

lemma scan_file_own:
  assumes "\<not> hidden name"
  shows "stem name \<in> discovered (scan_file (name, content) st)"
    and "classify content = Complete_record \<Longrightarrow>
           stem name \<in> completed (scan_file (name, content) st) \<and>
           stem name \<notin> pending (scan_file (name, content) st)"
    and "classify content = Incomplete_record \<Longrightarrow>
           stem name \<in> pending (scan_file (name, content) st)"
    and "classify content = Unparsable \<Longrightarrow>
           stem name \<in> completed (scan_file (name, content) st) \<and>
           (stem name \<in> pending (scan_file (name, content) st)) = (stem name \<in> pending st)"
  using assms
  by (auto simp: scan_file_classify scan_unparsable_def split: scan_class.splits)

lemma scan_classification:
  assumes d: "distinct (scanned_ids listing)"
    and e: "(name, content) \<in> set listing" and h: "\<not> hidden name"
  shows "stem name \<in> discovered (scan_existing_recipes True listing st) \<and>
    (classify content = Complete_record \<longrightarrow>
       stem name \<in> completed (scan_existing_recipes True listing st) \<and>
       stem name \<notin> pending (scan_existing_recipes True listing st)) \<and>
    (classify content = Incomplete_record \<longrightarrow>
       stem name \<in> pending (scan_existing_recipes True listing st)) \<and>
    (classify content = Unparsable \<longrightarrow>
       stem name \<in> completed (scan_existing_recipes True listing st) \<and>
       (stem name \<in> pending (scan_existing_recipes True listing st)) = (stem name \<in> pending st))"
proof -
  from e obtain xs ys where l: "listing = xs @ (name, content) # ys"
    by (auto dest: split_list)
  let ?a = "fold scan_file xs st"
  let ?b = "scan_file (name, content) ?a"
  have r: "scan_existing_recipes True listing st = fold scan_file ys ?b"
    by (simp add: scan_existing_recipes_def l)
  have nx: "stem name \<notin> set (scanned_ids xs)" and ny: "stem name \<notin> set (scanned_ids ys)"
    using d h by (auto simp: l scanned_ids_def)
  note fx = fold_scan_frame [OF nx, of st]
  note fy = fold_scan_frame [OF ny, of ?b]
  have disc: "stem name \<in> discovered (fold scan_file ys ?b)"
    using scan_file_own(1) [OF h, of content ?a] fold_scan_discovered [of ?b ys] by blast
  show ?thesis
    unfolding r
    using disc fx fy scan_file_own(2-4) [OF h, of content ?a]
    by simp
qed

text \<open>
  C8, at a recovery file that lists \<open>r1\<close> as pending while \<open>r1.json\<close> cannot be parsed:
  after the scan \<open>r1\<close> is completed and still pending, so the continue mode fetches it
  again. A complete record in the same place is taken out of \<open>pending\<close>.
\<close>

theorem scan_unparsable_stays_pending:
  "''r1'' \<in> completed (scan_existing_recipes True [(''r1.json'', Unreadable)]
               (sample_state {''r1''} {} {})) \<and>
   ''r1'' \<in> pending (scan_existing_recipes True [(''r1.json'', Unreadable)]
               (sample_state {''r1''} {} {})) \<and>
   should_download (sample_config CONTINUE)
     (scan_existing_recipes True [(''r1.json'', Unreadable)] (sample_state {''r1''} {} {}))
     [''/data/r1.json'' \<mapsto> Unreadable] ''r1'' \<and>
   seed_queue (sample_config CONTINUE) sorted_list_of_set
     (scan_existing_recipes True [(''r1.json'', Unreadable)] (sample_state {''r1''} {} {}))
     = Some [''r1''] \<and>
   ''r1'' \<notin> pending (scan_existing_recipes True
               [(''r1.json'', Json (JDict [(''ingredients'', JList [JStr ''salt''])]))]
               (sample_state {''r1''} {} {}))"
  by (simp add: sample_state_def sample_config_def scan_existing_recipes_def scan_file_def
        hidden_def stem_def scan_unparsable_def should_download_def seed_queue_def
        Recipe_from_dict_def scan_parsed_def is_complete_def py_or_def dict_get_def Let_def)

subsection \<open>Downloading with retries\<close>



















subsection \<open>An explicit identifier list\<close>















end
